theory Spec2Isabelle
  imports Complex_Main
begin

section \<open>Data model\<close>

text \<open>
  The server actions of the repository (account refresh, transaction sync) talk to two
  collaborators: the aggregator client (\<open>plaidClient\<close>) and the relational store
  (\<open>supabase\<close>). Both are made explicit here: a response of the aggregator is a value,
  the store is a record that every action takes and returns, and every \<open>throw\<close> of the
  source is a value \<open>Inl (Error msg)\<close>.
\<close>

datatype error = Error string

subsection \<open>Aggregator payloads (the fields the actions read)\<close>

record pfc =
  primary :: string
  detailed :: string

record transaction =
  t_account_id :: string
  t_transaction_id :: string
  t_amount :: real
  t_authorized_datetime :: "string option"
  t_datetime :: "string option"
  t_personal_finance_category :: "pfc option"
  t_name :: string
  t_merchant_name :: "string option"
  t_payment_channel :: string
  t_iso_currency_code :: "string option"
  t_pending :: bool

record removed_transaction =
  rm_transaction_id :: string
  rm_account_id :: string

record sync_page =
  added :: "transaction list"
  modified :: "transaction list"
  removed :: "removed_transaction list"
  next_cursor :: string
  has_more :: bool

record balances =
  available :: "real option"
  current :: "real option"
  iso_currency_code :: "string option"

record account_base =
  a_account_id :: string
  a_balances :: balances
  a_name :: string
  a_official_name :: "string option"
  a_type :: string
  a_subtype :: "string option"

text \<open>\<open>UpdatedItem\<close>: the aggregator's item with the institution display name, which
  may be missing at run time.\<close>

record updated_item =
  i_item_id :: string
  i_institution_id :: "string option"
  i_institution_name :: "string option"

subsection \<open>Rows of the store\<close>

record transaction_row =
  tr_user_id :: string
  tr_account_id :: string
  tr_transaction_id :: string
  tr_amount :: real
  tr_authorized_datetime :: "string option"
  tr_datetime :: "string option"
  tr_personal_finance_category_primary :: "string option"
  tr_personal_finance_category_detailed :: "string option"
  tr_name :: string
  tr_merchant_name :: "string option"
  tr_payment_channel :: string
  tr_currency :: "string option"
  tr_pending :: bool

record account_row =
  ar_user_id :: string
  ar_item_id :: string
  ar_account_id :: string
  ar_available_balance :: "real option"
  ar_current_balance :: "real option"
  ar_currency :: "string option"
  ar_name :: string
  ar_official_name :: "string option"
  ar_type :: string
  ar_subtype :: "string option"
  ar_institution_id :: "string option"
  ar_institution_name :: string

record item_row =
  ir_user_id :: string
  ir_access_token :: string
  ir_item_id :: string
  ir_institution_id :: "string option"
  ir_institution_name :: string
  ir_cursor :: "string option"

text \<open>The requests the actions issue to the store, in the order they are issued.\<close>

datatype store_op =
    SelectCursor string
  | UpsertTransactions "transaction_row list"
  | DeleteTransactions "string list"
  | UpdateCursor string "string option"
  | UpsertAccounts "account_row list"

text \<open>
  The store. \<open>transactions\<close> and \<open>accounts\<close> are upserted on a conflict key
  (\<open>transaction_id\<close>, \<open>account_id\<close>), which the store keeps unique, so each is a
  partial map from that key to the row. \<open>items\<close> is only inserted into, selected by
  \<open>item_id\<close> and updated, so it stays a list of rows. \<open>oplog\<close> records every request
  issued, whether it succeeded or not.
\<close>

record store =
  items :: "item_row list"
  accounts :: "string \<rightharpoonup> account_row"
  transactions :: "string \<rightharpoonup> transaction_row"
  oplog :: "store_op list"

text \<open>
  What one invocation finds around it: the result of \<open>getUserId\<close> (\<open>None\<close> when no
  user is signed in) and, for each request to the store, the error message of a failure
  of the store's own (connection, permissions, constraints on other columns), \<open>None\<close>
  when there is none.
\<close>

record env =
  userId :: "string option"
  selectError :: "string option"
  upsertError :: "string option"
  deleteError :: "string option"
  cursorError :: "string option"
  accountsError :: "string option"

section \<open>The store's requests\<close>

text \<open>
  The store client (\<open>supabase\<close>, an external library reached through
  \<open>createClient\<close>) is not part of the sources; the actions only show which requests
  are issued, with which arguments and in which order. Each request is therefore a
  definition of its own here, written from what the spec asks of the store:
  upsert-by-key with update-in-place on an existing identifier, delete-by-key-set, and
  an update of the rows selected by an equality filter. A request never throws: it
  answers with an optional error message, which the action inspects. A request that
  is answered with an error changes no row, and every request is appended to the log.
\<close>

text \<open>Modelled from the spec: the store's answer to an upsert request whose rows hold
  the same conflict key twice (the store client is missing). The spec asks of the store
  update-in-place on an \<^emph>\<open>existing\<close> identifier and is silent on such a request; the
  store behind the client (one \<open>INSERT ... ON CONFLICT DO UPDATE\<close> statement per request)
  answers it with this error and writes no row.\<close>

definition repeatedKeyError :: string where
  "repeatedKeyError = ''ON CONFLICT DO UPDATE command cannot affect row a second time''"

text \<open>Modelled from the spec: the effect of upserting one row on the conflict key
  \<open>transaction_id\<close> (the store client is missing): a row with that identifier is
  replaced in place, otherwise the row is added.\<close>

definition upsertTransactionRow ::
    "(string \<rightharpoonup> transaction_row) \<Rightarrow> transaction_row \<Rightarrow> (string \<rightharpoonup> transaction_row)" where
  "upsertTransactionRow m r = m(tr_transaction_id r \<mapsto> r)"

text \<open>Modelled from the spec: \<open>from('transactions').upsert(rows, { onConflict:
  'transaction_id' })\<close> (the store client is missing). The request is answered with
  an error when the store fails for a reason of its own (\<open>upsertError\<close>) or when two of
  its rows hold the same identifier; otherwise every row is written under its
  identifier. The identifiers of a request that is written are pairwise distinct, so
  the order of its rows does not matter.\<close>

definition db_upsert_transactions ::
    "env \<Rightarrow> transaction_row list \<Rightarrow> store \<Rightarrow> string option \<times> store" where
  "db_upsert_transactions e rows db =
     (let db1 = db\<lparr>oplog := oplog db @ [UpsertTransactions rows]\<rparr>
      in case upsertError e of
           Some msg \<Rightarrow> (Some msg, db1)
         | None \<Rightarrow>
             if distinct (map tr_transaction_id rows)
             then (None, db1\<lparr>transactions := foldl upsertTransactionRow (transactions db) rows\<rparr>)
             else (Some repeatedKeyError, db1))"

text \<open>Modelled from the spec: \<open>from('transactions').delete().in('transaction_id',
  ids)\<close> (the store client is missing): every row whose identifier is in \<open>ids\<close>
  is removed; identifiers without a row are no error.\<close>

definition db_delete_transactions ::
    "env \<Rightarrow> string list \<Rightarrow> store \<Rightarrow> string option \<times> store" where
  "db_delete_transactions e ids db =
     (let db1 = db\<lparr>oplog := oplog db @ [DeleteTransactions ids]\<rparr>
      in case deleteError e of
           Some msg \<Rightarrow> (Some msg, db1)
         | None \<Rightarrow>
             (None, db1\<lparr>transactions :=
                (\<lambda>k. if k \<in> set ids then None else transactions db k)\<rparr>))"

text \<open>Modelled from the spec: \<open>from('items').update({ cursor }).eq('item_id',
  itemId)\<close> (the store client is missing): the cursor of every item row with that
  identifier is replaced; matching no row is no error.\<close>

definition db_update_cursor ::
    "env \<Rightarrow> string \<Rightarrow> string option \<Rightarrow> store \<Rightarrow> string option \<times> store" where
  "db_update_cursor e itemId c db =
     (let db1 = db\<lparr>oplog := oplog db @ [UpdateCursor itemId c]\<rparr>
      in case cursorError e of
           Some msg \<Rightarrow> (Some msg, db1)
         | None \<Rightarrow>
             (None, db1\<lparr>items :=
                map (\<lambda>r. if ir_item_id r = itemId then r\<lparr>ir_cursor := c\<rparr> else r) (items db)\<rparr>))"

text \<open>Modelled from the spec: \<open>from('items').select('cursor').eq('item_id',
  itemId).single()\<close> (the store client is missing) answers with the cursor of the row
  when exactly one row matches, and with no data (and an error the caller does not look
  at) otherwise.\<close>

definition db_select_cursor ::
    "env \<Rightarrow> string \<Rightarrow> store \<Rightarrow> string option option \<times> store" where
  "db_select_cursor e itemId db =
     (let db1 = db\<lparr>oplog := oplog db @ [SelectCursor itemId]\<rparr>
      in case selectError e of
           Some msg \<Rightarrow> (None, db1)
         | None \<Rightarrow>
             (case filter (\<lambda>r. ir_item_id r = itemId) (items db) of
                [r] \<Rightarrow> (Some (ir_cursor r), db1)
              | _ \<Rightarrow> (None, db1)))"

text \<open>Modelled from the spec: the effect of upserting one row on the conflict key
  \<open>account_id\<close> (the store client is missing).\<close>

definition upsertAccountRow ::
    "(string \<rightharpoonup> account_row) \<Rightarrow> account_row \<Rightarrow> (string \<rightharpoonup> account_row)" where
  "upsertAccountRow m r = m(ar_account_id r \<mapsto> r)"

text \<open>Modelled from the spec: \<open>from('accounts').upsert(rows, { onConflict:
  'account_id' })\<close> (the store client is missing), answered with an error when the
  store fails for a reason of its own (\<open>accountsError\<close>) or when two of its rows hold
  the same identifier; otherwise every row is written under its identifier.\<close>

definition db_upsert_accounts ::
    "env \<Rightarrow> account_row list \<Rightarrow> store \<Rightarrow> string option \<times> store" where
  "db_upsert_accounts e rows db =
     (let db1 = db\<lparr>oplog := oplog db @ [UpsertAccounts rows]\<rparr>
      in case accountsError e of
           Some msg \<Rightarrow> (Some msg, db1)
         | None \<Rightarrow>
             if distinct (map ar_account_id rows)
             then (None, db1\<lparr>accounts := foldl upsertAccountRow (accounts db) rows\<rparr>)
             else (Some repeatedKeyError, db1))"

section \<open>Delta application: \<open>applyTransactionUpdates\<close>\<close>

definition transactionUpsert :: "string \<Rightarrow> transaction \<Rightarrow> transaction_row" where
  "transactionUpsert uid t =
     \<lparr> tr_user_id = uid,
       tr_account_id = t_account_id t,
       tr_transaction_id = t_transaction_id t,
       tr_amount = t_amount t,
       tr_authorized_datetime = t_authorized_datetime t,
       tr_datetime = t_datetime t,
       tr_personal_finance_category_primary = map_option primary (t_personal_finance_category t),
       tr_personal_finance_category_detailed = map_option detailed (t_personal_finance_category t),
       tr_name = t_name t,
       tr_merchant_name = t_merchant_name t,
       tr_payment_channel = t_payment_channel t,
       tr_currency = t_iso_currency_code t,
       tr_pending = t_pending t \<rparr>"

text \<open>
  The three requests in the source's order; each error of the store is thrown with the
  step's own message, and a throw ends the action. The cursor is \<open>string option\<close>:
  the caller's variable starts as \<open>null\<close> or the stored cursor.
\<close>

definition applyTransactionUpdates ::
    "env \<Rightarrow> string \<Rightarrow> transaction list \<Rightarrow> transaction list \<Rightarrow> string list \<Rightarrow> string option
       \<Rightarrow> store \<Rightarrow> (error + unit) \<times> store" where
  "applyTransactionUpdates e itemId addedT modifiedT removedIds cursor db =
     (case userId e of
        None \<Rightarrow> (Inl (Error ''User not found''), db)
      | Some uid \<Rightarrow>
          (let transactionUpserts = map (transactionUpsert uid) (addedT @ modifiedT)
           in case db_upsert_transactions e transactionUpserts db of
                (Some msg, db1) \<Rightarrow> (Inl (Error (''Error upserting transactions: '' @ msg)), db1)
              | (None, db1) \<Rightarrow>
                  (case (if length removedIds > 0
                         then db_delete_transactions e removedIds db1
                         else (None, db1)) of
                     (Some msg, db2) \<Rightarrow>
                       (Inl (Error (''Error deleting transactions: '' @ msg)), db2)
                   | (None, db2) \<Rightarrow>
                       (case db_update_cursor e itemId cursor db2 of
                          (Some msg, db3) \<Rightarrow>
                            (Inl (Error (''Error updating cursor: '' @ msg)), db3)
                        | (None, db3) \<Rightarrow> (Inr (), db3)))))"

section \<open>Account refresh: \<open>storePlaidAccounts\<close>, \<open>fetchAndStoreAccounts\<close>\<close>

definition accountInsert :: "string \<Rightarrow> updated_item \<Rightarrow> account_base \<Rightarrow> account_row" where
  "accountInsert uid item account =
     \<lparr> ar_user_id = uid,
       ar_item_id = i_item_id item,
       ar_account_id = a_account_id account,
       ar_available_balance = available (a_balances account),
       ar_current_balance = current (a_balances account),
       ar_currency = iso_currency_code (a_balances account),
       ar_name = a_name account,
       ar_official_name = a_official_name account,
       ar_type = a_type account,
       ar_subtype = a_subtype account,
       ar_institution_id = i_institution_id item,
       ar_institution_name =
         (case i_institution_name item of
            None \<Rightarrow> ''Unknown Institution''
          | Some n \<Rightarrow> if n = [] then ''Unknown Institution'' else n) \<rparr>"

definition storePlaidAccounts ::
    "env \<Rightarrow> account_base list \<Rightarrow> updated_item \<Rightarrow> store \<Rightarrow> (error + string) \<times> store" where
  "storePlaidAccounts e accs item db =
     (case userId e of
        None \<Rightarrow> (Inl (Error ''User not found''), db)
      | Some uid \<Rightarrow>
          (let insertData = map (accountInsert uid item) accs
           in case db_upsert_accounts e insertData db of
                (Some msg, db1) \<Rightarrow> (Inl (Error (''Error inserting accounts: '' @ msg)), db1)
              | (None, db1) \<Rightarrow> (Inr ''Successfully stored accounts'', db1)))"

text \<open>
  \<open>accountsGet\<close> is the aggregator's answer for the access token: an error (the call
  throws) or the accounts with their item. Whatever is thrown inside the \<open>try\<close> block
  is replaced by the one error of the \<open>catch\<close>.
\<close>

definition fetchAndStoreAccounts ::
    "env \<Rightarrow> (string \<Rightarrow> error + account_base list \<times> updated_item) \<Rightarrow> string \<Rightarrow> store
       \<Rightarrow> (error + string) \<times> store" where
  "fetchAndStoreAccounts e accountsGet accessToken db =
     (case accountsGet accessToken of
        Inl err \<Rightarrow> (Inl (Error ''Failed to fetch accounts''), db)
      | Inr (accs, item) \<Rightarrow>
          (case storePlaidAccounts e accs item db of
             (Inl err, db1) \<Rightarrow> (Inl (Error ''Failed to fetch accounts''), db1)
           | (Inr msg, db1) \<Rightarrow> (Inr msg, db1)))"

section \<open>Transaction sync: \<open>syncTransactions\<close>\<close>

text \<open>
  The aggregator's delta endpoint is a state machine: from its state, the access token
  and the cursor of the request it answers with an error (the call throws) or a page,
  and moves to its next state. The pagination loop has no bound of its own, so it is a
  partial function: \<open>None\<close> is the loop that never ends.
\<close>

type_synonym 's sync_client = "'s \<Rightarrow> string \<Rightarrow> string option \<Rightarrow> (error + sync_page) \<times> 's"

type_synonym delta = "transaction list \<times> transaction list \<times> string list \<times> string option"

partial_function (option) syncLoop ::
    "'s sync_client \<Rightarrow> string \<Rightarrow> 's \<Rightarrow> string option
       \<Rightarrow> transaction list \<Rightarrow> transaction list \<Rightarrow> string list \<Rightarrow> bool
       \<Rightarrow> ((error + delta) \<times> 's) option" where
  "syncLoop transactionsSync accessToken s cursor addedT modifiedT removedIds hasMore =
     (if hasMore
      then (case transactionsSync s accessToken cursor of
              (Inl err, s1) \<Rightarrow> Some (Inl err, s1)
            | (Inr data, s1) \<Rightarrow>
                syncLoop transactionsSync accessToken s1 (Some (next_cursor data))
                  (addedT @ added data)
                  (modifiedT @ modified data)
                  (removedIds @ map rm_transaction_id (removed data))
                  (has_more data))
      else Some (Inr (addedT, modifiedT, removedIds, cursor), s))"

text \<open>\<open>res.data?.cursor || null\<close>: no row, a null cursor and the empty string all
  give \<open>null\<close>.\<close>

definition loadCursor :: "env \<Rightarrow> string \<Rightarrow> store \<Rightarrow> string option \<times> store" where
  "loadCursor e itemId db =
     (case db_select_cursor e itemId db of
        (Some (Some c), db0) \<Rightarrow> (if c = [] then None else Some c, db0)
      | (_, db0) \<Rightarrow> (None, db0))"

text \<open>The end of the \<open>try\<close> block: the application's outcome, any throw replaced by
  the error of the \<open>catch\<close>.\<close>

definition syncOutcome :: "(error + unit) \<times> store \<Rightarrow> (error + string) \<times> store" where
  "syncOutcome r =
     (case r of
        (Inl err, db1) \<Rightarrow> (Inl (Error ''Failed to sync transactions''), db1)
      | (Inr u, db1) \<Rightarrow> (Inr ''Transactions synced successfully'', db1))"

definition syncTransactions ::
    "env \<Rightarrow> 's sync_client \<Rightarrow> 's \<Rightarrow> string \<Rightarrow> string \<Rightarrow> store
       \<Rightarrow> (((error + string) \<times> store) \<times> 's) option" where
  "syncTransactions e transactionsSync s accessToken itemId db =
     (case loadCursor e itemId db of
        (cursor, db0) \<Rightarrow>
          (case syncLoop transactionsSync accessToken s cursor [] [] [] True of
             None \<Rightarrow> None
           | Some (Inl err, s1) \<Rightarrow> Some ((Inl (Error ''Failed to sync transactions''), db0), s1)
           | Some (Inr (addedT, modifiedT, removedIds, cursor1), s1) \<Rightarrow>
               Some (syncOutcome
                       (applyTransactionUpdates e itemId addedT modifiedT removedIds cursor1 db0),
                     s1)))"

section \<open>Page streams\<close>

text \<open>
  \<open>deltaPages ts tok s c ps s1\<close>: asked from cursor \<open>c\<close> in state \<open>s\<close>, each request
  carrying the previous page's \<open>next_cursor\<close>, the aggregator serves exactly the pages
  \<open>ps\<close>, every page but the last with \<open>has_more\<close> set, and ends in state \<open>s1\<close>.
\<close>

fun deltaPages ::
    "'s sync_client \<Rightarrow> string \<Rightarrow> 's \<Rightarrow> string option \<Rightarrow> sync_page list \<Rightarrow> 's \<Rightarrow> bool" where
  "deltaPages ts tok s c [] s1 = False"
| "deltaPages ts tok s c (p # ps) s1 =
     (case ts s tok c of
        (Inl err, s2) \<Rightarrow> False
      | (Inr q, s2) \<Rightarrow>
          q = p \<and>
          (if has_more p then deltaPages ts tok s2 (Some (next_cursor p)) ps s1
           else ps = [] \<and> s1 = s2))"

text \<open>
  \<open>failingPages ts tok s c ps err s1\<close>: the aggregator serves the pages \<open>ps\<close>, all
  with \<open>has_more\<close> set, and the next request throws \<open>err\<close>.
\<close>

fun failingPages ::
    "'s sync_client \<Rightarrow> string \<Rightarrow> 's \<Rightarrow> string option \<Rightarrow> sync_page list \<Rightarrow> error \<Rightarrow> 's \<Rightarrow> bool" where
  "failingPages ts tok s c [] err s1 = (ts s tok c = (Inl err, s1))"
| "failingPages ts tok s c (p # ps) err s1 =
     (case ts s tok c of
        (Inl err2, s2) \<Rightarrow> False
      | (Inr q, s2) \<Rightarrow>
          q = p \<and> has_more p \<and> failingPages ts tok s2 (Some (next_cursor p)) ps err s1)"

text \<open>A scripted aggregator for concrete runs: its state is the list of answers still
  to give; with none left it throws.\<close>

fun scripted :: "(error + sync_page) list sync_client" where
  "scripted [] tok c = (Inl (Error ''no more responses''), [])"
| "scripted (r # rs) tok c = (r, rs)"

text \<open>The tables of the store, without the log of requests.\<close>

definition tables ::
    "store \<Rightarrow> item_row list \<times> (string \<rightharpoonup> account_row) \<times> (string \<rightharpoonup> transaction_row)" where
  "tables db = (items db, accounts db, transactions db)"

text \<open>The requests issued between two states of the store.\<close>

definition issued :: "store \<Rightarrow> store \<Rightarrow> store_op list" where
  "issued db db1 = drop (length (oplog db)) (oplog db1)"

section \<open>Concrete runs\<close>

text \<open>Sample data for the concrete runs below: a signed-in user, a store with one
  linked item and no rows yet, and the pages of a two-page sync.\<close>

definition sampleTx :: "string \<Rightarrow> string \<Rightarrow> real \<Rightarrow> transaction" where
  "sampleTx tid nm amt =
     \<lparr> t_account_id = ''acc1'',
       t_transaction_id = tid,
       t_amount = amt,
       t_authorized_datetime = None,
       t_datetime = Some ''2024-05-01T10:00:00Z'',
       t_personal_finance_category = Some \<lparr> primary = ''FOOD'', detailed = ''FOOD_GROCERIES'' \<rparr>,
       t_name = nm,
       t_merchant_name = None,
       t_payment_channel = ''online'',
       t_iso_currency_code = Some ''USD'',
       t_pending = False \<rparr>"

definition sampleEnv :: env where
  "sampleEnv =
     \<lparr> userId = Some ''u1'', selectError = None, upsertError = None, deleteError = None,
       cursorError = None, accountsError = None \<rparr>"

definition sampleItemRow :: item_row where
  "sampleItemRow =
     \<lparr> ir_user_id = ''u1'', ir_access_token = ''tok'', ir_item_id = ''item1'',
       ir_institution_id = Some ''ins_1'', ir_institution_name = ''First Bank'',
       ir_cursor = Some ''c0'' \<rparr>"

definition sampleStore :: store where
  "sampleStore =
     \<lparr> items = [sampleItemRow], accounts = Map.empty, transactions = Map.empty, oplog = [] \<rparr>"

definition page1 :: sync_page where
  "page1 = \<lparr> added = [sampleTx ''T1'' ''coffee'' 3.5], modified = [], removed = [],
             next_cursor = ''c1'', has_more = True \<rparr>"

definition page2 :: sync_page where
  "page2 = \<lparr> added = [sampleTx ''T2'' ''bread'' 2], modified = [],
             removed = [\<lparr> rm_transaction_id = ''T1'', rm_account_id = ''acc1'' \<rparr>],
             next_cursor = ''c2'', has_more = False \<rparr>"

text \<open>An aggregator that answers every request with one more page and never ends the
  stream; its state counts the requests.\<close>

definition endless :: "nat sync_client" where
  "endless n tok c =
     (Inr \<lparr> added = [], modified = [], removed = [], next_cursor = ''again'', has_more = True \<rparr>,
      Suc n)"

text \<open>An aggregator that serves a first sync only: a request with a cursor throws.\<close>

definition page0 :: sync_page where
  "page0 = \<lparr> added = [sampleTx ''T1'' ''coffee'' 3.5], modified = [], removed = [],
             next_cursor = ''c1'', has_more = False \<rparr>"

definition firstSyncOnly :: "unit sync_client" where
  "firstSyncOnly u tok c =
     (case c of
        None \<Rightarrow> (Inr page0, u)
      | Some x \<Rightarrow> (Inl (Error ''unexpected cursor''), u))"

definition sampleAccount :: "string \<Rightarrow> string \<Rightarrow> account_base" where
  "sampleAccount aid nm =
     \<lparr> a_account_id = aid,
       a_balances = \<lparr> available = Some 100, current = Some 110, iso_currency_code = Some ''USD'' \<rparr>,
       a_name = nm, a_official_name = None, a_type = ''depository'',
       a_subtype = Some ''checking'' \<rparr>"

definition sampleItem :: updated_item where
  "sampleItem = \<lparr> i_item_id = ''item1'', i_institution_id = Some ''ins_1'',
                  i_institution_name = None \<rparr>"

definition sampleAccountsGet :: "string \<Rightarrow> error + account_base list \<times> updated_item" where
  "sampleAccountsGet tok =
     Inr ([sampleAccount ''a1'' ''Checking'', sampleAccount ''a2'' ''Savings''], sampleItem)"

section \<open>Facts about the store and the delta application\<close>

lemma upsertTransactions_lookup:
  "foldl upsertTransactionRow m rows k =
     (case find (\<lambda>r. tr_transaction_id r = k) (rev rows) of Some r \<Rightarrow> Some r | None \<Rightarrow> m k)"
  by (induction rows rule: rev_induct) (auto simp: upsertTransactionRow_def)

lemma upsertAccounts_lookup:
  "foldl upsertAccountRow m rows k =
     (case find (\<lambda>r. ar_account_id r = k) (rev rows) of Some r \<Rightarrow> Some r | None \<Rightarrow> m k)"
  by (induction rows rule: rev_induct) (auto simp: upsertAccountRow_def)

lemma find_app:
  "find P (xs @ ys) = (case find P xs of Some x \<Rightarrow> Some x | None \<Rightarrow> find P ys)"
  by (induction xs) auto

lemma find_map_rev:
  "find P (rev (map f xs)) = map_option f (find (P \<circ> f) (rev xs))"
  by (induction xs rule: rev_induct) auto

lemma find_SomeD: "find P xs = Some x \<Longrightarrow> P x \<and> x \<in> set xs"
  by (induction xs) (auto split: if_splits)

lemma find_rev_None: "find P (rev xs) = None \<longleftrightarrow> (\<forall>x\<in>set xs. \<not> P x)"
  by (auto simp: find_None_iff)

lemma find_rev_distinct:
  "distinct (map f xs) \<Longrightarrow> x \<in> set xs \<Longrightarrow> find (\<lambda>y. f y = f x) (rev xs) = Some x"
proof (induction xs)
  case Nil
  then show ?case by simp
next
  case (Cons y ys)
  show ?case
  proof (cases "x \<in> set ys")
    case True
    with Cons have "find (\<lambda>z. f z = f x) (rev ys) = Some x" by simp
    then show ?thesis by (simp add: find_app)
  next
    case False
    with Cons.prems have xy: "x = y" and nin: "f x \<notin> f ` set ys" by auto
    have "find (\<lambda>z. f z = f x) (rev ys) = None"
      unfolding find_rev_None using nin by (metis image_eqI)
    with xy show ?thesis by (simp add: find_app)
  qed
qed

lemma upsert_ids:
  "map tr_transaction_id (map (transactionUpsert uid) ts) = map t_transaction_id ts"
  by (simp add: transactionUpsert_def)

lemma upsert_request:
  "db_upsert_transactions e (map (transactionUpsert uid) ts) db =
     (if upsertError e = None \<and> distinct (map t_transaction_id ts)
      then (None,
            db\<lparr>oplog := oplog db @ [UpsertTransactions (map (transactionUpsert uid) ts)],
               transactions :=
                 foldl upsertTransactionRow (transactions db) (map (transactionUpsert uid) ts)\<rparr>)
      else (Some (case upsertError e of Some msg \<Rightarrow> msg | None \<Rightarrow> repeatedKeyError),
            db\<lparr>oplog := oplog db @ [UpsertTransactions (map (transactionUpsert uid) ts)]\<rparr>))"
  unfolding db_upsert_transactions_def Let_def upsert_ids
  by (simp split: option.splits)

lemma apply_transactions:
  "transactions (snd (applyTransactionUpdates e itemId a m r c db)) =
     (case userId e of None \<Rightarrow> transactions db
      | Some uid \<Rightarrow>
         if upsertError e \<noteq> None \<or> \<not> distinct (map t_transaction_id (a @ m))
         then transactions db
         else if r \<noteq> [] \<and> deleteError e = None
         then (\<lambda>k. if k \<in> set r then None
                    else foldl upsertTransactionRow (transactions db) (map (transactionUpsert uid) (a @ m)) k)
         else foldl upsertTransactionRow (transactions db) (map (transactionUpsert uid) (a @ m)))"
  unfolding applyTransactionUpdates_def Let_def upsert_request
  by (auto simp: db_delete_transactions_def db_update_cursor_def Let_def
      simp del: map_append distinct_append split: option.splits)

lemma apply_items:
  "items (snd (applyTransactionUpdates e itemId a m r c db)) =
     (if userId e \<noteq> None \<and> upsertError e = None \<and> distinct (map t_transaction_id (a @ m)) \<and>
         (r \<noteq> [] \<longrightarrow> deleteError e = None) \<and> cursorError e = None
      then map (\<lambda>row. if ir_item_id row = itemId then row\<lparr>ir_cursor := c\<rparr> else row) (items db)
      else items db)"
  unfolding applyTransactionUpdates_def Let_def upsert_request
  by (auto simp: db_delete_transactions_def db_update_cursor_def Let_def
      simp del: map_append distinct_append split: option.splits)

lemma apply_accounts:
  "accounts (snd (applyTransactionUpdates e itemId a m r c db)) = accounts db"
  unfolding applyTransactionUpdates_def Let_def upsert_request
  by (auto simp: db_delete_transactions_def db_update_cursor_def Let_def
      simp del: map_append distinct_append split: option.splits)

lemma apply_result:
  "fst (applyTransactionUpdates e itemId a m r c db) =
     (case userId e of None \<Rightarrow> Inl (Error ''User not found'')
      | Some uid \<Rightarrow>
        (case upsertError e of Some msg \<Rightarrow> Inl (Error (''Error upserting transactions: '' @ msg))
         | None \<Rightarrow>
           if \<not> distinct (map t_transaction_id (a @ m))
           then Inl (Error (''Error upserting transactions: '' @ repeatedKeyError))
           else
           (case (if r \<noteq> [] then deleteError e else None) of
              Some msg \<Rightarrow> Inl (Error (''Error deleting transactions: '' @ msg))
            | None \<Rightarrow>
              (case cursorError e of Some msg \<Rightarrow> Inl (Error (''Error updating cursor: '' @ msg))
               | None \<Rightarrow> Inr ()))))"
  unfolding applyTransactionUpdates_def Let_def upsert_request
  by (auto simp: db_delete_transactions_def db_update_cursor_def Let_def
      simp del: map_append distinct_append split: option.splits)

lemma apply_issued:
  "issued db (snd (applyTransactionUpdates e itemId a m r c db)) =
     (case userId e of None \<Rightarrow> []
      | Some uid \<Rightarrow>
          UpsertTransactions (map (transactionUpsert uid) (a @ m)) #
          (if upsertError e \<noteq> None \<or> \<not> distinct (map t_transaction_id (a @ m)) then []
           else (if r \<noteq> [] then [DeleteTransactions r] else []) @
                (if r \<noteq> [] \<and> deleteError e \<noteq> None then [] else [UpdateCursor itemId c])))"
  unfolding applyTransactionUpdates_def Let_def upsert_request
  by (auto simp: db_delete_transactions_def db_update_cursor_def issued_def Let_def
      simp del: map_append distinct_append split: option.splits)

lemma apply_oplog:
  "oplog (snd (applyTransactionUpdates e itemId a m r c db)) =
     oplog db @ issued db (snd (applyTransactionUpdates e itemId a m r c db))"
  unfolding applyTransactionUpdates_def Let_def upsert_request
  by (auto simp: db_delete_transactions_def db_update_cursor_def issued_def Let_def
      simp del: map_append distinct_append split: option.splits)

lemma upserted_lookup:
  "foldl upsertTransactionRow T (map (transactionUpsert uid) ts) k =
     (case find (\<lambda>t. t_transaction_id t = k) (rev ts) of
        Some t \<Rightarrow> Some (transactionUpsert uid t)
      | None \<Rightarrow> T k)"
proof -
  have key: "(\<lambda>r. tr_transaction_id r = k) \<circ> transactionUpsert uid = (\<lambda>t. t_transaction_id t = k)"
    by (intro ext) (simp add: transactionUpsert_def)
  show ?thesis
    by (simp add: upsertTransactions_lookup find_map_rev key split: option.splits)
qed

lemma apply_transactions_at:
  "transactions (snd (applyTransactionUpdates e itemId a m r c db)) k =
     (case userId e of None \<Rightarrow> transactions db k
      | Some uid \<Rightarrow>
         if upsertError e \<noteq> None \<or> \<not> distinct (map t_transaction_id (a @ m))
         then transactions db k
         else if r \<noteq> [] \<and> deleteError e = None \<and> k \<in> set r then None
         else (case find (\<lambda>t. t_transaction_id t = k) (rev (a @ m)) of
                 Some t \<Rightarrow> Some (transactionUpsert uid t)
               | None \<Rightarrow> transactions db k))"
  unfolding apply_transactions upserted_lookup
  by (simp del: map_append distinct_append rev_append split: option.splits)

lemma upsert_step_transactions:
  "upsertError e = None \<Longrightarrow> distinct (map t_transaction_id ts) \<Longrightarrow>
   transactions (snd (db_upsert_transactions e (map (transactionUpsert uid) ts) db)) k =
     (case find (\<lambda>t. t_transaction_id t = k) (rev ts) of
        Some t \<Rightarrow> Some (transactionUpsert uid t)
      | None \<Rightarrow> transactions db k)"
  unfolding upsert_request by (simp add: upserted_lookup)

section \<open>Facts about the pagination loop\<close>

lemma syncLoop_pages:
  "deltaPages ts tok s c ps s1 \<Longrightarrow>
   syncLoop ts tok s c a m r True =
     Some (Inr (a @ concat (map added ps), m @ concat (map modified ps),
                r @ concat (map (\<lambda>p. map rm_transaction_id (removed p)) ps),
                Some (next_cursor (last ps))), s1)"
proof (induction ps arbitrary: s c a m r)
  case Nil
  then show ?case by simp
next
  case (Cons p ps)
  from Cons.prems obtain s2 where
    step: "ts s tok c = (Inr p, s2)" and
    rest: "if has_more p then deltaPages ts tok s2 (Some (next_cursor p)) ps s1
           else ps = [] \<and> s1 = s2"
    by (auto split: prod.splits sum.splits)
  show ?case
  proof (cases "has_more p")
    case True
    with rest have dp: "deltaPages ts tok s2 (Some (next_cursor p)) ps s1" by simp
    then have ne: "ps \<noteq> []" by (cases ps) auto
    show ?thesis
      by (subst syncLoop.simps) (simp add: step True Cons.IH [OF dp] ne)
  next
    case False
    with rest have "ps = []" "s1 = s2" by simp_all
    then show ?thesis
      by (subst syncLoop.simps, simp add: step False, subst syncLoop.simps, simp)
  qed
qed

lemma syncLoop_failing:
  "failingPages ts tok s c ps err s1 \<Longrightarrow> syncLoop ts tok s c a m r True = Some (Inl err, s1)"
proof (induction ps arbitrary: s c a m r)
  case Nil
  then show ?case by (subst syncLoop.simps) simp
next
  case (Cons p ps)
  from Cons.prems obtain s2 where
    step: "ts s tok c = (Inr p, s2)" and more: "has_more p" and
    rest: "failingPages ts tok s2 (Some (next_cursor p)) ps err s1"
    by (auto split: prod.splits sum.splits)
  show ?case
    by (subst syncLoop.simps) (simp add: step more Cons.IH [OF rest])
qed


lemmas syncLoop_induct = syncLoop.raw_induct [rotated 1, consumes 1, case_names step]

lemma syncLoop_returns:
  "syncLoop ts tok s c a m r h = Some y \<Longrightarrow>
     (if h
      then (\<forall>d s1. y = (Inr d, s1) \<longrightarrow> (\<exists>ps. deltaPages ts tok s c ps s1)) \<and>
           (\<forall>err s1. y = (Inl err, s1) \<longrightarrow> (\<exists>ps. failingPages ts tok s c ps err s1))
      else y = (Inr (a, m, r, c), s))"
proof (induction ts tok s c a m r h y rule: syncLoop_induct)
  case (step loop ts tok s c a m r h y)
  show ?case
  proof (cases h)
    case False
    with step.hyps show ?thesis by simp
  next
    case True
    obtain resp s2 where step: "ts s tok c = (resp, s2)" by (cases "ts s tok c")
    show ?thesis
    proof (cases resp)
      case (Inl err)
      with step.hyps True step have y: "y = (Inl err, s2)" by simp
      have "\<exists>ps. failingPages ts tok s c ps err s2"
        by (rule exI [of _ "[]"]) (simp add: step Inl)
      with y True show ?thesis by simp
    next
      case (Inr p)
      with step.hyps True step have call:
        "loop ts tok s2 (Some (next_cursor p)) (a @ added p) (m @ modified p)
           (r @ map rm_transaction_id (removed p)) (has_more p) = Some y"
        by simp
      note ih = step.IH [OF call]
      show ?thesis
      proof (cases "has_more p")
        case more: True
        have d: "deltaPages ts tok s c (p # ps) s1"
          if "deltaPages ts tok s2 (Some (next_cursor p)) ps s1" for ps s1
          using that step Inr more by simp
        have f: "failingPages ts tok s c (p # ps) err s1"
          if "failingPages ts tok s2 (Some (next_cursor p)) ps err s1" for ps err s1
          using that step Inr more by simp
        from ih more have both:
          "(\<forall>d s1. y = (Inr d, s1) \<longrightarrow> (\<exists>ps. deltaPages ts tok s2 (Some (next_cursor p)) ps s1)) \<and>
           (\<forall>err s1. y = (Inl err, s1) \<longrightarrow> (\<exists>ps. failingPages ts tok s2 (Some (next_cursor p)) ps err s1))"
          by (simp only: if_True)
        have "\<exists>ps. deltaPages ts tok s c ps s1" if "y = (Inr dl, s1)" for dl s1
          using both that d by blast
        moreover have "\<exists>ps. failingPages ts tok s c ps err s1" if "y = (Inl err, s1)" for err s1
          using both that f by blast
        ultimately show ?thesis using True by simp
      next
        case last: False
        with ih have y: "y = (Inr (a @ added p, m @ modified p,
            r @ map rm_transaction_id (removed p), Some (next_cursor p)), s2)" by simp
        have "\<exists>ps. deltaPages ts tok s c ps s2"
          by (rule exI [of _ "[p]"]) (simp add: step Inr last)
        with y True show ?thesis by simp
      qed
    qed
  qed
qed

lemma syncLoop_never_ends_aux:
  "syncLoop ts tok s c a m r h = Some y \<Longrightarrow>
     (\<forall>s c. \<exists>p s1. ts s tok c = (Inr p, s1) \<and> has_more p) \<longrightarrow> \<not> h"
proof (induction ts tok s c a m r h y rule: syncLoop_induct)
  case (step loop ts tok s c a m r h y)
  show ?case
  proof (intro impI notI)
    assume always: "\<forall>s c. \<exists>p s1. ts s tok c = (Inr p, s1) \<and> has_more p" and h: h
    from always obtain p s2 where step: "ts s tok c = (Inr p, s2)" and more: "has_more p"
      by blast
    from step.hyps h step more have call:
      "loop ts tok s2 (Some (next_cursor p)) (a @ added p) (m @ modified p)
         (r @ map rm_transaction_id (removed p)) True = Some y"
      by simp
    from step.IH [OF call] always show False by blast
  qed
qed

lemma syncLoop_never_ends:
  "(\<forall>s c. \<exists>p s1. ts s tok c = (Inr p, s1) \<and> has_more p) \<Longrightarrow>
     syncLoop ts tok s c a m r True = None"
  using syncLoop_never_ends_aux [of ts tok s c a m r True]
  by (cases "syncLoop ts tok s c a m r True") auto

section \<open>Facts about the sync action\<close>

lemma loadCursor_store:
  "snd (loadCursor e itemId db) = db\<lparr>oplog := oplog db @ [SelectCursor itemId]\<rparr>"
  by (simp add: loadCursor_def db_select_cursor_def Let_def split: option.splits list.splits)

lemma loadCursor_absent:
  "filter (\<lambda>row. ir_item_id row = itemId) (items db) = [] \<or>
   (\<exists>row. filter (\<lambda>row. ir_item_id row = itemId) (items db) = [row] \<and>
          (ir_cursor row = None \<or> ir_cursor row = Some [])) \<Longrightarrow>
   fst (loadCursor e itemId db) = None"
  by (auto simp: loadCursor_def db_select_cursor_def Let_def split: option.splits list.splits)

lemma syncTransactions_unfold:
  "syncTransactions e ts s tok itemId db =
     (case syncLoop ts tok s (fst (loadCursor e itemId db)) [] [] [] True of
        None \<Rightarrow> None
      | Some (Inl err, s1) \<Rightarrow>
          Some ((Inl (Error ''Failed to sync transactions''), snd (loadCursor e itemId db)), s1)
      | Some (Inr (a, m, r, c1), s1) \<Rightarrow>
          Some (syncOutcome (applyTransactionUpdates e itemId a m r c1 (snd (loadCursor e itemId db))), s1))"
  by (cases "loadCursor e itemId db")
     (simp add: syncTransactions_def split: option.splits prod.splits sum.splits)

lemma syncOutcome_success:
  "fst r = Inr () \<Longrightarrow> syncOutcome r = (Inr ''Transactions synced successfully'', snd r)"
  by (cases r) (simp add: syncOutcome_def)

lemma apply_success:
  assumes "userId e \<noteq> None" "upsertError e = None" "distinct (map t_transaction_id (a @ m))"
    "deleteError e = None" "cursorError e = None"
  shows "fst (applyTransactionUpdates e itemId a m r c db) = Inr ()"
    and "items (snd (applyTransactionUpdates e itemId a m r c db)) =
           map (\<lambda>row. if ir_item_id row = itemId then row\<lparr>ir_cursor := c\<rparr> else row) (items db)"
  using assms unfolding apply_result apply_items by (auto split: option.splits)

lemma apply_success_last:
  assumes "userId e \<noteq> None" "upsertError e = None" "distinct (map t_transaction_id (a @ m))"
    "deleteError e = None" "cursorError e = None"
  shows "last (issued db (snd (applyTransactionUpdates e itemId a m r c db))) = UpdateCursor itemId c"
  using assms unfolding apply_issued by (auto split: option.splits)

lemma issued_after_select:
  "issued db (snd (applyTransactionUpdates e itemId a m r c (snd (loadCursor e1 itemId1 db)))) =
     SelectCursor itemId1 #
     issued (snd (loadCursor e1 itemId1 db))
       (snd (applyTransactionUpdates e itemId a m r c (snd (loadCursor e1 itemId1 db))))"
proof -
  have "oplog (snd (applyTransactionUpdates e itemId a m r c (snd (loadCursor e1 itemId1 db)))) =
      oplog db @ SelectCursor itemId1 #
        issued (snd (loadCursor e1 itemId1 db))
          (snd (applyTransactionUpdates e itemId a m r c (snd (loadCursor e1 itemId1 db))))"
    by (subst apply_oplog) (simp add: loadCursor_store)
  then show ?thesis
    by (simp add: issued_def [of db])
qed

lemma update_no_match:
  "filter (\<lambda>row. ir_item_id row = i) xs = [] \<Longrightarrow>
   map (\<lambda>row. if ir_item_id row = i then row\<lparr>ir_cursor := c\<rparr> else row) xs = xs"
  by (induction xs) (simp_all split: if_splits)

lemma set_cursor_row:
  "ir_item_id (if ir_item_id x = i then x\<lparr>ir_cursor := c\<rparr> else x) = i \<Longrightarrow>
   ir_cursor (if ir_item_id x = i then x\<lparr>ir_cursor := c\<rparr> else x) = c"
  by (cases "ir_item_id x = i") simp_all

lemma cursor_committed:
  assumes "row \<in> set (map (\<lambda>x. if ir_item_id x = i then x\<lparr>ir_cursor := c\<rparr> else x) xs)"
    and "ir_item_id row = i"
  shows "ir_cursor row = c"
proof -
  from assms(1) obtain x where
    row: "row = (if ir_item_id x = i then x\<lparr>ir_cursor := c\<rparr> else x)"
    unfolding set_map by (rule imageE)
  from assms(2) show ?thesis unfolding row by (rule set_cursor_row)
qed

lemma sample_cursor: "fst (loadCursor sampleEnv ''item1'' sampleStore) = Some ''c0''"
  by (simp add: loadCursor_def db_select_cursor_def sampleEnv_def sampleStore_def
      sampleItemRow_def Let_def)

lemma account_ids:
  "map ar_account_id (map (accountInsert uid item) accs) = map a_account_id accs"
  by (simp add: accountInsert_def)

lemma storePlaidAccounts_success:
  assumes "userId e = Some uid" and "accountsError e = None"
    and "distinct (map a_account_id accs)"
  shows "storePlaidAccounts e accs item db =
           (Inr ''Successfully stored accounts'',
            db\<lparr>oplog := oplog db @ [UpsertAccounts (map (accountInsert uid item) accs)],
               accounts := foldl upsertAccountRow (accounts db) (map (accountInsert uid item) accs)\<rparr>)"
  using assms unfolding storePlaidAccounts_def db_upsert_accounts_def Let_def account_ids
  by simp

lemma accounts_lookup:
  "foldl upsertAccountRow T (map (accountInsert uid item) accs) k =
     (case find (\<lambda>a. a_account_id a = k) (rev accs) of
        Some a \<Rightarrow> Some (accountInsert uid item a)
      | None \<Rightarrow> T k)"
proof -
  have key: "(\<lambda>r. ar_account_id r = k) \<circ> accountInsert uid item = (\<lambda>a. a_account_id a = k)"
    by (intro ext) (simp add: accountInsert_def)
  show ?thesis
    by (simp add: upsertAccounts_lookup find_map_rev key split: option.splits)
qed

section \<open>Claims about the delta application\<close>

text \<open>
  C5. Applying the same delta (added, modified, removed, cursor) a second time, in the
  same surroundings, leaves the tables of the store (item rows with their cursors,
  accounts, transaction rows) as the first application left them, and reports the same
  outcome: re-upserting the same rows and deleting identifiers that are already gone
  change nothing. This holds also when a step fails both times.
\<close>

theorem applyTransactionUpdates_idempotent:
  "tables (snd (applyTransactionUpdates e itemId a m r c
             (snd (applyTransactionUpdates e itemId a m r c db)))) =
   tables (snd (applyTransactionUpdates e itemId a m r c db))
   \<and> fst (applyTransactionUpdates e itemId a m r c
             (snd (applyTransactionUpdates e itemId a m r c db))) =
     fst (applyTransactionUpdates e itemId a m r c db)"
proof -
  let ?db1 = "snd (applyTransactionUpdates e itemId a m r c db)"
  let ?db2 = "snd (applyTransactionUpdates e itemId a m r c ?db1)"
  have t: "transactions ?db2 = transactions ?db1"
  proof (rule ext)
    fix k
    show "transactions ?db2 k = transactions ?db1 k"
      unfolding apply_transactions_at [of e itemId a m r c "?db1" k]
      unfolding apply_transactions_at [of e itemId a m r c db k]
      by (simp del: map_append distinct_append rev_append split: option.splits)
  qed
  define ok where "ok = (userId e \<noteq> None \<and> upsertError e = None \<and>
                distinct (map t_transaction_id (a @ m)) \<and>
                (r \<noteq> [] \<longrightarrow> deleteError e = None) \<and> cursorError e = None)"
  define f :: "item_row \<Rightarrow> item_row"
    where "f = (\<lambda>row. if ir_item_id row = itemId then row\<lparr>ir_cursor := c\<rparr> else row)"
  have ff: "map f (map f xs) = map f xs" for xs
    by (induction xs) (auto simp: f_def)
  have i1: "items (snd (applyTransactionUpdates e itemId a m r c d)) =
              (if ok then map f (items d) else items d)" for d
    unfolding ok_def f_def by (rule apply_items)
  have i: "items ?db2 = items ?db1"
    by (cases ok) (simp_all only: i1 ff if_True if_False)
  have ac: "accounts ?db2 = accounts ?db1"
    by (simp add: apply_accounts)
  have res: "fst (applyTransactionUpdates e itemId a m r c ?db1) =
             fst (applyTransactionUpdates e itemId a m r c db)"
    by (simp only: apply_result)
  show ?thesis by (simp add: tables_def t i ac res)
qed

theorem applyTransactionUpdates_idempotent_witness:
  "transactions (snd (applyTransactionUpdates sampleEnv ''item1''
       [sampleTx ''T1'' ''coffee'' 3.5, sampleTx ''T2'' ''bread'' 2] [] [''T1''] (Some ''c2'')
       (snd (applyTransactionUpdates sampleEnv ''item1''
          [sampleTx ''T1'' ''coffee'' 3.5, sampleTx ''T2'' ''bread'' 2] [] [''T1''] (Some ''c2'')
          sampleStore)))) ''T2'' = Some (transactionUpsert ''u1'' (sampleTx ''T2'' ''bread'' 2))
   \<and> map ir_cursor (items (snd (applyTransactionUpdates sampleEnv ''item1''
       [sampleTx ''T1'' ''coffee'' 3.5, sampleTx ''T2'' ''bread'' 2] [] [''T1''] (Some ''c2'')
       (snd (applyTransactionUpdates sampleEnv ''item1''
          [sampleTx ''T1'' ''coffee'' 3.5, sampleTx ''T2'' ''bread'' 2] [] [''T1''] (Some ''c2'')
          sampleStore))))) = [Some ''c2'']"
  using applyTransactionUpdates_idempotent [of sampleEnv "''item1''"
      "[sampleTx ''T1'' ''coffee'' 3.5, sampleTx ''T2'' ''bread'' 2]" "[]" "[''T1'']" "Some ''c2''"
      sampleStore]
  by (simp add: tables_def apply_transactions_at apply_items sampleEnv_def sampleStore_def
      sampleItemRow_def sampleTx_def)





text \<open>
  C6, as amended. The upsert step, for a resolved user, identifiers of added and
  modified that are pairwise distinct, and a store that answers the upsert without
  error: every transaction of added and modified has, after the step, a row stored under
  its own transaction identifier that carries the user's identifier and the
  transaction's account identifier, transaction identifier, amount, authorized and
  posted timestamps, primary and detailed category (null without a category), name,
  merchant name, payment channel, currency and pending flag; and unless its identifier
  is in the removed list the same row is there at the end of the invocation.
\<close>

theorem applyTransactionUpdates_upsert_rows:
  assumes "userId e = Some uid" and "upsertError e = None"
    and "distinct (map t_transaction_id (a @ m))" and "t \<in> set (a @ m)"
  shows
    "(let row = \<lparr> tr_user_id = uid,
          tr_account_id = t_account_id t,
          tr_transaction_id = t_transaction_id t,
          tr_amount = t_amount t,
          tr_authorized_datetime = t_authorized_datetime t,
          tr_datetime = t_datetime t,
          tr_personal_finance_category_primary =
            (case t_personal_finance_category t of None \<Rightarrow> None | Some p \<Rightarrow> Some (primary p)),
          tr_personal_finance_category_detailed =
            (case t_personal_finance_category t of None \<Rightarrow> None | Some p \<Rightarrow> Some (detailed p)),
          tr_name = t_name t,
          tr_merchant_name = t_merchant_name t,
          tr_payment_channel = t_payment_channel t,
          tr_currency = t_iso_currency_code t,
          tr_pending = t_pending t \<rparr>
      in transactions (snd (db_upsert_transactions e (map (transactionUpsert uid) (a @ m)) db))
           (t_transaction_id t) = Some row
         \<and> (t_transaction_id t \<notin> set r \<longrightarrow>
              transactions (snd (applyTransactionUpdates e itemId a m r c db))
                (t_transaction_id t) = Some row))"
proof -
  have found: "find (\<lambda>x. t_transaction_id x = t_transaction_id t) (rev (a @ m)) = Some t"
    by (rule find_rev_distinct [OF assms(3,4)])
  have row: "transactionUpsert uid t = \<lparr> tr_user_id = uid,
          tr_account_id = t_account_id t,
          tr_transaction_id = t_transaction_id t,
          tr_amount = t_amount t,
          tr_authorized_datetime = t_authorized_datetime t,
          tr_datetime = t_datetime t,
          tr_personal_finance_category_primary =
            (case t_personal_finance_category t of None \<Rightarrow> None | Some p \<Rightarrow> Some (primary p)),
          tr_personal_finance_category_detailed =
            (case t_personal_finance_category t of None \<Rightarrow> None | Some p \<Rightarrow> Some (detailed p)),
          tr_name = t_name t,
          tr_merchant_name = t_merchant_name t,
          tr_payment_channel = t_payment_channel t,
          tr_currency = t_iso_currency_code t,
          tr_pending = t_pending t \<rparr>"
    by (simp add: transactionUpsert_def map_option_case)
  have step: "transactions (snd (db_upsert_transactions e (map (transactionUpsert uid) (a @ m)) db))
           (t_transaction_id t) = Some (transactionUpsert uid t)"
    unfolding upsert_step_transactions [OF assms(2,3)] found by simp
  have whole: "transactions (snd (applyTransactionUpdates e itemId a m r c db))
                (t_transaction_id t) = Some (transactionUpsert uid t)"
    if "t_transaction_id t \<notin> set r"
    unfolding apply_transactions_at found using assms(1,2,3) that by simp
  from step whole show ?thesis
    unfolding Let_def row by (intro conjI impI)
qed

theorem applyTransactionUpdates_upsert_rows_witness:
  "userId sampleEnv = Some ''u1'' \<and> upsertError sampleEnv = None
   \<and> distinct (map t_transaction_id ([sampleTx ''T1'' ''coffee'' 3.5] @ [sampleTx ''T2'' ''bakery'' 2.5]))
   \<and> sampleTx ''T2'' ''bakery'' 2.5 \<in> set ([sampleTx ''T1'' ''coffee'' 3.5] @ [sampleTx ''T2'' ''bakery'' 2.5])
   \<and> transactions (snd (applyTransactionUpdates sampleEnv ''item1''
          [sampleTx ''T1'' ''coffee'' 3.5] [sampleTx ''T2'' ''bakery'' 2.5] [] (Some ''c1'')
          sampleStore)) ''T2'' =
       Some \<lparr> tr_user_id = ''u1'', tr_account_id = ''acc1'', tr_transaction_id = ''T2'',
              tr_amount = 2.5, tr_authorized_datetime = None,
              tr_datetime = Some ''2024-05-01T10:00:00Z'',
              tr_personal_finance_category_primary = Some ''FOOD'',
              tr_personal_finance_category_detailed = Some ''FOOD_GROCERIES'',
              tr_name = ''bakery'', tr_merchant_name = None, tr_payment_channel = ''online'',
              tr_currency = Some ''USD'', tr_pending = False \<rparr>"
proof -
  have u: "userId sampleEnv = Some ''u1''" and ue: "upsertError sampleEnv = None"
    by (simp_all add: sampleEnv_def)
  have d: "distinct (map t_transaction_id ([sampleTx ''T1'' ''coffee'' 3.5] @ [sampleTx ''T2'' ''bakery'' 2.5]))"
    by (simp add: sampleTx_def)
  have t: "sampleTx ''T2'' ''bakery'' 2.5 \<in> set ([sampleTx ''T1'' ''coffee'' 3.5] @ [sampleTx ''T2'' ''bakery'' 2.5])"
    by simp
  from applyTransactionUpdates_upsert_rows [OF u ue d t, where r = "[]" and db = sampleStore
      and itemId = "''item1''" and c = "Some ''c1''"]
    u ue d t
  show ?thesis
    by (simp add: Let_def sampleTx_def)
qed

text \<open>
  The claim C6 as it stands fails where it speaks of an identifier present in both added
  and modified: the two rows go to the store in one upsert request, the store rejects
  the request, the invocation throws the upsert error and no row is written, so the
  identifier has no row at all, let alone the modified entry's.
\<close>

theorem applyTransactionUpdates_upsert_rows_counterexample:
  "userId sampleEnv = Some ''u1'' \<and> upsertError sampleEnv = None
   \<and> t_transaction_id (sampleTx ''T1'' ''coffee'' 3.5) = ''T1''
   \<and> t_transaction_id (sampleTx ''T1'' ''coffee shop'' 4) = ''T1''
   \<and> fst (applyTransactionUpdates sampleEnv ''item1''
          [sampleTx ''T1'' ''coffee'' 3.5] [sampleTx ''T1'' ''coffee shop'' 4] [] (Some ''c1'')
          sampleStore) =
       Inl (Error (''Error upserting transactions: '' @ repeatedKeyError))
   \<and> transactions (snd (applyTransactionUpdates sampleEnv ''item1''
          [sampleTx ''T1'' ''coffee'' 3.5] [sampleTx ''T1'' ''coffee shop'' 4] [] (Some ''c1'')
          sampleStore)) ''T1'' = None
   \<and> transactions (snd (applyTransactionUpdates sampleEnv ''item1''
          [sampleTx ''T1'' ''coffee'' 3.5] [sampleTx ''T1'' ''coffee shop'' 4] [] (Some ''c1'')
          sampleStore)) ''T1'' \<noteq> Some (transactionUpsert ''u1'' (sampleTx ''T1'' ''coffee shop'' 4))"
  by (simp add: apply_result apply_transactions_at sampleEnv_def sampleStore_def sampleTx_def)

text \<open>
  C9. The footprint of the delta application, whatever the store answers. A transaction
  row whose identifier is neither among the added or modified transactions nor in the
  removed list is unchanged; the accounts table is unchanged; the item rows stay in
  place, and each is either unchanged or is a row of the given item identifier with only
  its cursor replaced by the new cursor; and with an empty removed list no delete
  request is issued.
\<close>

theorem applyTransactionUpdates_frame:
  "(\<forall>k. k \<notin> t_transaction_id ` set (a @ m) \<union> set r \<longrightarrow>
        transactions (snd (applyTransactionUpdates e itemId a m r c db)) k = transactions db k)
   \<and> accounts (snd (applyTransactionUpdates e itemId a m r c db)) = accounts db
   \<and> list_all2 (\<lambda>row row1. row1 = row \<or> (ir_item_id row = itemId \<and> row1 = row\<lparr>ir_cursor := c\<rparr>))
        (items db) (items (snd (applyTransactionUpdates e itemId a m r c db)))
   \<and> (r = [] \<longrightarrow>
        (\<forall>ids. DeleteTransactions ids \<notin> set (issued db (snd (applyTransactionUpdates e itemId a m r c db)))))"
proof -
  have t: "transactions (snd (applyTransactionUpdates e itemId a m r c db)) k = transactions db k"
    if "k \<notin> t_transaction_id ` set (a @ m) \<union> set r" for k
  proof -
    from that have "find (\<lambda>t. t_transaction_id t = k) (rev (a @ m)) = None"
      unfolding find_rev_None by blast
    moreover from that have "k \<notin> set r" by simp
    ultimately show ?thesis unfolding apply_transactions_at by (simp split: option.splits)
  qed
  have i: "list_all2 (\<lambda>row row1. row1 = row \<or> (ir_item_id row = itemId \<and> row1 = row\<lparr>ir_cursor := c\<rparr>))
        (items db) (items (snd (applyTransactionUpdates e itemId a m r c db)))"
    unfolding apply_items by (simp add: list_all2_map2 list_all2_same)
  have d: "DeleteTransactions ids \<notin> set (issued db (snd (applyTransactionUpdates e itemId a m r c db)))"
    if "r = []" for ids
    unfolding apply_issued using that by (simp split: option.splits)
  from t i d show ?thesis by (simp add: apply_accounts)
qed

theorem applyTransactionUpdates_frame_witness:
  "''T9'' \<notin> t_transaction_id ` set ([sampleTx ''T1'' ''coffee'' 3.5] @ []) \<union> set []
   \<and> transactions (snd (applyTransactionUpdates sampleEnv ''item1'' [sampleTx ''T1'' ''coffee'' 3.5] [] []
        (Some ''c1'')
        (sampleStore\<lparr>transactions := [''T9'' \<mapsto> transactionUpsert ''u0'' (sampleTx ''T9'' ''rent'' 900)]\<rparr>)))
        ''T9'' = Some (transactionUpsert ''u0'' (sampleTx ''T9'' ''rent'' 900))
   \<and> DeleteTransactions [] \<notin> set (issued
        (sampleStore\<lparr>transactions := [''T9'' \<mapsto> transactionUpsert ''u0'' (sampleTx ''T9'' ''rent'' 900)]\<rparr>)
        (snd (applyTransactionUpdates sampleEnv ''item1'' [sampleTx ''T1'' ''coffee'' 3.5] [] []
        (Some ''c1'')
        (sampleStore\<lparr>transactions := [''T9'' \<mapsto> transactionUpsert ''u0'' (sampleTx ''T9'' ''rent'' 900)]\<rparr>))))"
  using applyTransactionUpdates_frame [of "[sampleTx ''T1'' ''coffee'' 3.5]" "[]" "[]" sampleEnv
      "''item1''" "Some ''c1''"
      "sampleStore\<lparr>transactions := [''T9'' \<mapsto> transactionUpsert ''u0'' (sampleTx ''T9'' ''rent'' 900)]\<rparr>"]
  by (simp add: sampleStore_def sampleTx_def)

section \<open>Claims about the transaction sync\<close>

text \<open>
  C1. Let the aggregator, asked from the cursor loaded from the store, serve the pages
  \<open>ps\<close>, the last one with \<open>has_more = false\<close>. Then the pagination loop returns the
  concatenation, in fetch order, of the pages' added lists, of their modified lists and
  of the transaction identifiers of their removed lists, together with the last page's
  \<open>next_cursor\<close>; \<open>syncTransactions\<close> passes exactly these and that cursor to
  \<open>applyTransactionUpdates\<close>; and when the user is resolved and the store answers
  without error (for the upsert this takes accumulated identifiers of added and modified
  that are pairwise distinct), the sync reports success and every item row of the item identifier
  carries the last page's \<open>next_cursor\<close>.
\<close>

theorem syncTransactions_accumulates:
  assumes "deltaPages ts tok s (fst (loadCursor e itemId db)) ps s1"
  shows
    "syncLoop ts tok s (fst (loadCursor e itemId db)) [] [] [] True =
       Some (Inr (concat (map added ps), concat (map modified ps),
                  concat (map (\<lambda>p. map rm_transaction_id (removed p)) ps),
                  Some (next_cursor (last ps))), s1)
     \<and> syncTransactions e ts s tok itemId db =
       Some (syncOutcome
               (applyTransactionUpdates e itemId (concat (map added ps)) (concat (map modified ps))
                  (concat (map (\<lambda>p. map rm_transaction_id (removed p)) ps))
                  (Some (next_cursor (last ps))) (snd (loadCursor e itemId db))), s1)
     \<and> (userId e \<noteq> None \<and> upsertError e = None \<and> deleteError e = None \<and> cursorError e = None \<and>
        distinct (map t_transaction_id (concat (map added ps) @ concat (map modified ps))) \<longrightarrow>
          (\<exists>db1. syncTransactions e ts s tok itemId db =
                   Some ((Inr ''Transactions synced successfully'', db1), s1) \<and>
                 (\<forall>row \<in> set (items db1).
                    ir_item_id row = itemId \<longrightarrow> ir_cursor row = Some (next_cursor (last ps)))))"
proof -
  let ?A = "concat (map added ps)" and ?M = "concat (map modified ps)"
  let ?R = "concat (map (\<lambda>p. map rm_transaction_id (removed p)) ps)"
  let ?c = "Some (next_cursor (last ps))"
  let ?db0 = "snd (loadCursor e itemId db)"
  let ?ap = "applyTransactionUpdates e itemId ?A ?M ?R ?c ?db0"
  have loop: "syncLoop ts tok s (fst (loadCursor e itemId db)) [] [] [] True =
       Some (Inr (?A, ?M, ?R, ?c), s1)"
    using syncLoop_pages [OF assms, of "[]" "[]" "[]"] by simp
  have sync: "syncTransactions e ts s tok itemId db = Some (syncOutcome ?ap, s1)"
    unfolding syncTransactions_unfold loop by simp
  have ok: "userId e \<noteq> None \<and> upsertError e = None \<and> deleteError e = None \<and> cursorError e = None \<and>
            distinct (map t_transaction_id (?A @ ?M)) \<longrightarrow>
            (\<exists>db1. syncTransactions e ts s tok itemId db =
                   Some ((Inr ''Transactions synced successfully'', db1), s1) \<and>
                 (\<forall>row \<in> set (items db1).
                    ir_item_id row = itemId \<longrightarrow> ir_cursor row = ?c))"
  proof (rule impI)
    assume env: "userId e \<noteq> None \<and> upsertError e = None \<and> deleteError e = None \<and> cursorError e = None \<and>
            distinct (map t_transaction_id (?A @ ?M))"
    from env have u: "userId e \<noteq> None" and ue: "upsertError e = None"
      and de: "deleteError e = None" and ce: "cursorError e = None"
      and d: "distinct (map t_transaction_id (?A @ ?M))"
      by (simp_all del: map_append distinct_append)
    note res = apply_success(1) [OF u ue d de ce, of itemId ?R ?c ?db0]
    note it = apply_success(2) [OF u ue d de ce, of itemId ?R ?c ?db0]
    have cur: "\<forall>row \<in> set (items (snd ?ap)). ir_item_id row = itemId \<longrightarrow> ir_cursor row = ?c"
      unfolding it by (intro ballI impI) (erule (1) cursor_committed)
    have "syncTransactions e ts s tok itemId db =
            Some ((Inr ''Transactions synced successfully'', snd ?ap), s1)"
      unfolding sync syncOutcome_success [OF res] by (rule refl)
    with cur show "\<exists>db1. syncTransactions e ts s tok itemId db =
                   Some ((Inr ''Transactions synced successfully'', db1), s1) \<and>
                 (\<forall>row \<in> set (items db1).
                    ir_item_id row = itemId \<longrightarrow> ir_cursor row = ?c)"
      by (intro exI [of _ "snd ?ap"] conjI)
  qed
  from loop sync ok show ?thesis by (intro conjI)
qed

theorem syncTransactions_accumulates_witness:
  "deltaPages scripted ''tok'' [Inr page1, Inr page2]
     (fst (loadCursor sampleEnv ''item1'' sampleStore)) [page1, page2] []
   \<and> syncLoop scripted ''tok'' [Inr page1, Inr page2] (Some ''c0'') [] [] [] True =
       Some (Inr ([sampleTx ''T1'' ''coffee'' 3.5, sampleTx ''T2'' ''bread'' 2], [], [''T1''],
                  Some ''c2''), [])
   \<and> syncTransactions sampleEnv scripted [Inr page1, Inr page2] ''tok'' ''item1'' sampleStore =
       Some (syncOutcome
               (applyTransactionUpdates sampleEnv ''item1''
                  [sampleTx ''T1'' ''coffee'' 3.5, sampleTx ''T2'' ''bread'' 2] [] [''T1'']
                  (Some ''c2'') (snd (loadCursor sampleEnv ''item1'' sampleStore))), [])
   \<and> distinct (map t_transaction_id
        (concat (map added [page1, page2]) @ concat (map modified [page1, page2])))
   \<and> (\<exists>db1. syncTransactions sampleEnv scripted [Inr page1, Inr page2] ''tok'' ''item1''
               sampleStore =
              Some ((Inr ''Transactions synced successfully'', db1), []) \<and>
            (\<forall>row \<in> set (items db1). ir_item_id row = ''item1'' \<longrightarrow> ir_cursor row = Some ''c2''))"
proof -
  have dp: "deltaPages scripted ''tok'' [Inr page1, Inr page2]
     (fst (loadCursor sampleEnv ''item1'' sampleStore)) [page1, page2] []"
    by (simp add: page1_def page2_def)
  have env: "userId sampleEnv \<noteq> None \<and> upsertError sampleEnv = None \<and>
             deleteError sampleEnv = None \<and> cursorError sampleEnv = None"
    by (simp add: sampleEnv_def)
  have d: "distinct (map t_transaction_id
        (concat (map added [page1, page2]) @ concat (map modified [page1, page2])))"
    by (simp add: page1_def page2_def sampleTx_def)
  from env d have envd: "userId sampleEnv \<noteq> None \<and> upsertError sampleEnv = None \<and>
             deleteError sampleEnv = None \<and> cursorError sampleEnv = None \<and>
             distinct (map t_transaction_id
               (concat (map added [page1, page2]) @ concat (map modified [page1, page2])))"
    by blast
  have lastc: "next_cursor (last [page1, page2]) = ''c2''"
    by (simp add: page2_def)
  note acc = syncTransactions_accumulates [OF dp]
  have run: "\<exists>db1. syncTransactions sampleEnv scripted [Inr page1, Inr page2] ''tok'' ''item1''
               sampleStore =
              Some ((Inr ''Transactions synced successfully'', db1), []) \<and>
            (\<forall>row \<in> set (items db1). ir_item_id row = ''item1'' \<longrightarrow> ir_cursor row = Some ''c2'')"
    using acc [THEN conjunct2, THEN conjunct2, THEN mp, OF envd]
    unfolding lastc .
  have loop: "syncLoop scripted ''tok'' [Inr page1, Inr page2] (Some ''c0'') [] [] [] True =
       Some (Inr ([sampleTx ''T1'' ''coffee'' 3.5, sampleTx ''T2'' ''bread'' 2], [], [''T1''],
                  Some ''c2''), [])"
    using acc [THEN conjunct1] by (simp add: sample_cursor page1_def page2_def)
  have sync: "syncTransactions sampleEnv scripted [Inr page1, Inr page2] ''tok'' ''item1'' sampleStore =
       Some (syncOutcome
               (applyTransactionUpdates sampleEnv ''item1''
                  [sampleTx ''T1'' ''coffee'' 3.5, sampleTx ''T2'' ''bread'' 2] [] [''T1'']
                  (Some ''c2'') (snd (loadCursor sampleEnv ''item1'' sampleStore))), [])"
    using acc [THEN conjunct2, THEN conjunct1] by (simp add: page1_def page2_def)
  from dp loop sync d run show ?thesis by (intro conjI)
qed

text \<open>
  C3. Let the aggregator serve some pages, all with \<open>has_more\<close> set, and let the next
  fetch throw. Then \<open>syncTransactions\<close> ends with the error
  \<open>Failed to sync transactions\<close>, the store it leaves is the one right after the read
  of the cursor: its tables (item rows with their cursors, accounts, transactions) are
  those before the invocation, and the only request issued is that read.
\<close>

theorem syncTransactions_fetch_error:
  assumes "failingPages ts tok s (fst (loadCursor e itemId db)) ps err s1"
  shows
    "syncTransactions e ts s tok itemId db =
       Some ((Inl (Error ''Failed to sync transactions''), snd (loadCursor e itemId db)), s1)
     \<and> tables (snd (loadCursor e itemId db)) = tables db
     \<and> issued db (snd (loadCursor e itemId db)) = [SelectCursor itemId]"
proof -
  have "syncLoop ts tok s (fst (loadCursor e itemId db)) [] [] [] True = Some (Inl err, s1)"
    by (rule syncLoop_failing [OF assms])
  then have "syncTransactions e ts s tok itemId db =
       Some ((Inl (Error ''Failed to sync transactions''), snd (loadCursor e itemId db)), s1)"
    unfolding syncTransactions_unfold by simp
  then show ?thesis
    by (simp add: loadCursor_store tables_def issued_def)
qed

theorem syncTransactions_fetch_error_witness:
  "failingPages scripted ''tok'' [Inr page1, Inl (Error ''rate limit'')]
     (fst (loadCursor sampleEnv ''item1'' sampleStore)) [page1] (Error ''rate limit'') []
   \<and> syncTransactions sampleEnv scripted [Inr page1, Inl (Error ''rate limit'')] ''tok'' ''item1''
        sampleStore =
       Some ((Inl (Error ''Failed to sync transactions''),
              sampleStore\<lparr>oplog := [SelectCursor ''item1'']\<rparr>), [])"
proof -
  have fp: "failingPages scripted ''tok'' [Inr page1, Inl (Error ''rate limit'')]
     (fst (loadCursor sampleEnv ''item1'' sampleStore)) [page1] (Error ''rate limit'') []"
    by (simp add: page1_def)
  have "oplog sampleStore = []" by (simp add: sampleStore_def)
  with syncTransactions_fetch_error [OF fp] fp
  show ?thesis
    by (simp add: loadCursor_store)
qed

text \<open>
  C8. The pagination loop returns a delta exactly when the aggregator's page stream
  reaches a page with \<open>has_more = false\<close> after finitely many pages: if it does, the
  loop terminates with a delta, and if the loop returns a delta, the stream did reach
  such a page. The loop has no bound of its own: against an aggregator that answers
  every request with a page that has \<open>has_more\<close> set, the loop and
  \<open>syncTransactions\<close> never return.
\<close>

theorem syncLoop_terminates:
  "(deltaPages ts tok s c ps s1 \<longrightarrow> (\<exists>d. syncLoop ts tok s c a m r True = Some (Inr d, s1)))
   \<and> (syncLoop ts tok s c a m r True = Some (Inr d, s1) \<longrightarrow> (\<exists>qs. deltaPages ts tok s c qs s1))
   \<and> ((\<forall>s c. \<exists>p s2. ts s tok c = (Inr p, s2) \<and> has_more p) \<longrightarrow>
        syncLoop ts tok s c a m r True = None \<and> syncTransactions e ts s tok itemId db = None)"
proof -
  have one: "\<exists>d. syncLoop ts tok s c a m r True = Some (Inr d, s1)" if "deltaPages ts tok s c ps s1"
    using syncLoop_pages [OF that, of a m r] by simp
  have two: "\<exists>qs. deltaPages ts tok s c qs s1" if "syncLoop ts tok s c a m r True = Some (Inr d, s1)"
    using syncLoop_returns [OF that] by (cases d) simp
  have three: "syncLoop ts tok s c a m r True = None \<and> syncTransactions e ts s tok itemId db = None"
    if "\<forall>s c. \<exists>p s2. ts s tok c = (Inr p, s2) \<and> has_more p"
    unfolding syncTransactions_unfold
    using syncLoop_never_ends [of ts tok, OF that] by simp
  show ?thesis by (intro conjI impI one two three; assumption)
qed

theorem syncLoop_terminates_witness:
  "deltaPages scripted ''tok'' [Inr page1, Inr page2] None [page1, page2] []
   \<and> (\<exists>d. syncLoop scripted ''tok'' [Inr page1, Inr page2] None [] [] [] True = Some (Inr d, []))
   \<and> (\<forall>s c. \<exists>p s2. endless s ''tok'' c = (Inr p, s2) \<and> has_more p)
   \<and> syncLoop endless ''tok'' 0 None [] [] [] True = None"
proof -
  have dp: "deltaPages scripted ''tok'' [Inr page1, Inr page2] None [page1, page2] []"
    by (simp add: page1_def page2_def)
  have more: "\<forall>s c. \<exists>p s2. endless s ''tok'' c = (Inr p, s2) \<and> has_more p"
    by (simp add: endless_def)
  note t1 = syncLoop_terminates [where ts = scripted and tok = "''tok''"
      and s = "[Inr page1, Inr page2]" and c = None and ps = "[page1, page2]" and ?s1.0 = "[]"
      and a = "[]" and m = "[]" and r = "[]"]
  note t2 = syncLoop_terminates [where ts = endless and tok = "''tok''" and s = "0::nat"
      and c = None and a = "[]" and m = "[]" and r = "[]"]
  have one: "\<exists>d. syncLoop scripted ''tok'' [Inr page1, Inr page2] None [] [] [] True = Some (Inr d, [])"
    by (rule t1 [THEN conjunct1, THEN mp, OF dp])
  have two: "syncLoop endless ''tok'' 0 None [] [] [] True = None"
    by (rule t2 [THEN conjunct2, THEN conjunct2, THEN mp, OF more, THEN conjunct1])
  from dp one more two show ?thesis by (intro conjI)
qed

text \<open>
  C10. Let no item row have the given item identifier, or let the one row that has it
  hold a null or empty cursor. Then the cursor loaded for the loop is null, there is no
  failing check: when the aggregator, asked from the null cursor, serves pages up to a
  last one, the user is resolved and the store answers without error (for the upsert
  this takes accumulated identifiers of added and modified that are pairwise distinct),
  \<open>syncTransactions\<close> reports success, the cursor update is the last request issued,
  and with no matching row it leaves the item rows as they were.
\<close>

theorem syncTransactions_without_stored_cursor:
  assumes "filter (\<lambda>row. ir_item_id row = itemId) (items db) = [] \<or>
           (\<exists>row. filter (\<lambda>row. ir_item_id row = itemId) (items db) = [row] \<and>
                  (ir_cursor row = None \<or> ir_cursor row = Some []))"
  shows
    "fst (loadCursor e itemId db) = None
     \<and> (deltaPages ts tok s None ps s1 \<and>
        userId e \<noteq> None \<and> upsertError e = None \<and> deleteError e = None \<and> cursorError e = None \<and>
        distinct (map t_transaction_id (concat (map added ps) @ concat (map modified ps))) \<longrightarrow>
          (\<exists>db1. syncTransactions e ts s tok itemId db =
                   Some ((Inr ''Transactions synced successfully'', db1), s1) \<and>
                 last (issued db db1) = UpdateCursor itemId (Some (next_cursor (last ps))) \<and>
                 (filter (\<lambda>row. ir_item_id row = itemId) (items db) = [] \<longrightarrow> items db1 = items db)))"
proof -
  have none: "fst (loadCursor e itemId db) = None"
    by (rule loadCursor_absent [OF assms])
  let ?A = "concat (map added ps)" and ?M = "concat (map modified ps)"
  let ?R = "concat (map (\<lambda>p. map rm_transaction_id (removed p)) ps)"
  let ?c = "Some (next_cursor (last ps))"
  let ?db0 = "snd (loadCursor e itemId db)"
  let ?ap = "applyTransactionUpdates e itemId ?A ?M ?R ?c ?db0"
  have run: "deltaPages ts tok s None ps s1 \<and>
        userId e \<noteq> None \<and> upsertError e = None \<and> deleteError e = None \<and> cursorError e = None \<and>
        distinct (map t_transaction_id (?A @ ?M)) \<longrightarrow>
          (\<exists>db1. syncTransactions e ts s tok itemId db =
                   Some ((Inr ''Transactions synced successfully'', db1), s1) \<and>
                 last (issued db db1) = UpdateCursor itemId ?c \<and>
                 (filter (\<lambda>row. ir_item_id row = itemId) (items db) = [] \<longrightarrow> items db1 = items db))"
  proof (rule impI)
    assume h: "deltaPages ts tok s None ps s1 \<and>
        userId e \<noteq> None \<and> upsertError e = None \<and> deleteError e = None \<and> cursorError e = None \<and>
        distinct (map t_transaction_id (?A @ ?M))"
    then have pages: "deltaPages ts tok s None ps s1" and u: "userId e \<noteq> None"
      and ue: "upsertError e = None" and de: "deleteError e = None" and ce: "cursorError e = None"
      and d: "distinct (map t_transaction_id (?A @ ?M))"
      by (simp_all del: map_append distinct_append)
    have loop: "syncLoop ts tok s (fst (loadCursor e itemId db)) [] [] [] True =
       Some (Inr (?A, ?M, ?R, ?c), s1)"
      unfolding none using syncLoop_pages [OF pages, of "[]" "[]" "[]"] by simp
    have sync: "syncTransactions e ts s tok itemId db = Some (syncOutcome ?ap, s1)"
      unfolding syncTransactions_unfold loop by simp
    note res = apply_success(1) [OF u ue d de ce, of itemId ?R ?c ?db0]
    note it = apply_success(2) [OF u ue d de ce, of itemId ?R ?c ?db0]
    have items0: "items ?db0 = items db"
      by (simp add: loadCursor_store)
    have same: "filter (\<lambda>row. ir_item_id row = itemId) (items db) = [] \<longrightarrow> items (snd ?ap) = items db"
      unfolding it items0 by (rule impI) (erule update_no_match)
    have lst: "last (issued db (snd ?ap)) = UpdateCursor itemId ?c"
      unfolding issued_after_select
      using apply_success_last [OF u ue d de ce, of ?db0 itemId ?R ?c]
      by (simp add: apply_issued u ue d del: map_append distinct_append split: option.splits)
    have "syncTransactions e ts s tok itemId db =
            Some ((Inr ''Transactions synced successfully'', snd ?ap), s1)"
      unfolding sync syncOutcome_success [OF res] by (rule refl)
    with lst same show "\<exists>db1. syncTransactions e ts s tok itemId db =
                   Some ((Inr ''Transactions synced successfully'', db1), s1) \<and>
                 last (issued db db1) = UpdateCursor itemId ?c \<and>
                 (filter (\<lambda>row. ir_item_id row = itemId) (items db) = [] \<longrightarrow> items db1 = items db)"
      by (intro exI [of _ "snd ?ap"] conjI)
  qed
  from none run show ?thesis by (intro conjI)
qed

theorem syncTransactions_without_stored_cursor_witness:
  "filter (\<lambda>row. ir_item_id row = ''item1'') (items (sampleStore\<lparr>items := []\<rparr>)) = []
   \<and> deltaPages firstSyncOnly ''tok'' () None [page0] ()
   \<and> fst (loadCursor sampleEnv ''item1'' (sampleStore\<lparr>items := []\<rparr>)) = None
   \<and> (\<exists>db1. syncTransactions sampleEnv firstSyncOnly () ''tok'' ''item1'' (sampleStore\<lparr>items := []\<rparr>) =
              Some ((Inr ''Transactions synced successfully'', db1), ()) \<and>
            last (issued (sampleStore\<lparr>items := []\<rparr>) db1) = UpdateCursor ''item1'' (Some ''c1'') \<and>
            items db1 = [])"
proof -
  have nomatch: "filter (\<lambda>row. ir_item_id row = ''item1'') (items (sampleStore\<lparr>items := []\<rparr>)) = []"
    by simp
  have dp: "deltaPages firstSyncOnly ''tok'' () None [page0] ()"
    by (simp add: firstSyncOnly_def page0_def)
  have env: "userId sampleEnv \<noteq> None \<and> upsertError sampleEnv = None \<and>
             deleteError sampleEnv = None \<and> cursorError sampleEnv = None"
    by (simp add: sampleEnv_def)
  from syncTransactions_without_stored_cursor [OF disjI1, OF nomatch,
      of sampleEnv firstSyncOnly "''tok''" "()" "[page0]" "()"] dp env nomatch
  show ?thesis
    by (simp add: page0_def)
qed

section \<open>Claims about the account refresh\<close>

text \<open>
  C7. Let the aggregator answer the snapshot request with accounts, of pairwise distinct
  account identifiers, and their item, the user be resolved and the store answer the
  upsert without error. Then \<open>fetchAndStoreAccounts\<close> does what \<open>storePlaidAccounts\<close>
  does on that snapshot and reports success. One upsert request is issued, with one row
  per account of the snapshot, in order. Afterwards every account of the snapshot has a
  row stored under its account identifier, and the row carries the user's identifier,
  the item's identifier, the account's identifier, available and current balance,
  currency, name, official name, type and subtype, the item's institution identifier,
  and the item's institution name, or \<open>Unknown Institution\<close> when that name is missing
  or empty. Rows of other account identifiers, item rows and transaction rows are
  untouched.
\<close>

theorem fetchAndStoreAccounts_upserts:
  assumes "accountsGet tok = Inr (accs, item)" and "userId e = Some uid"
    and "accountsError e = None" and "distinct (map a_account_id accs)"
  shows
    "(let row = (\<lambda>account. \<lparr> ar_user_id = uid,
                 ar_item_id = i_item_id item,
                 ar_account_id = a_account_id account,
                 ar_available_balance = available (a_balances account),
                 ar_current_balance = current (a_balances account),
                 ar_currency = iso_currency_code (a_balances account),
                 ar_name = a_name account,
                 ar_official_name = a_official_name account,
                 ar_type = a_type account,
                 ar_subtype = a_subtype account,
                 ar_institution_id = i_institution_id item,
                 ar_institution_name =
                   (case i_institution_name item of
                      None \<Rightarrow> ''Unknown Institution''
                    | Some n \<Rightarrow> if n = [] then ''Unknown Institution'' else n) \<rparr>)
      in fetchAndStoreAccounts e accountsGet tok db = storePlaidAccounts e accs item db
         \<and> fst (fetchAndStoreAccounts e accountsGet tok db) = Inr ''Successfully stored accounts''
         \<and> issued db (snd (fetchAndStoreAccounts e accountsGet tok db)) =
             [UpsertAccounts (map row accs)]
         \<and> (\<forall>account \<in> set accs.
               accounts (snd (fetchAndStoreAccounts e accountsGet tok db)) (a_account_id account) =
                 Some (row account))
         \<and> (\<forall>k. k \<notin> a_account_id ` set accs \<longrightarrow>
               accounts (snd (fetchAndStoreAccounts e accountsGet tok db)) k = accounts db k)
         \<and> items (snd (fetchAndStoreAccounts e accountsGet tok db)) = items db
         \<and> transactions (snd (fetchAndStoreAccounts e accountsGet tok db)) = transactions db)"
proof -
  have row: "accountInsert uid item = (\<lambda>account. \<lparr> ar_user_id = uid,
                 ar_item_id = i_item_id item,
                 ar_account_id = a_account_id account,
                 ar_available_balance = available (a_balances account),
                 ar_current_balance = current (a_balances account),
                 ar_currency = iso_currency_code (a_balances account),
                 ar_name = a_name account,
                 ar_official_name = a_official_name account,
                 ar_type = a_type account,
                 ar_subtype = a_subtype account,
                 ar_institution_id = i_institution_id item,
                 ar_institution_name =
                   (case i_institution_name item of
                      None \<Rightarrow> ''Unknown Institution''
                    | Some n \<Rightarrow> if n = [] then ''Unknown Institution'' else n) \<rparr>)"
    by (intro ext) (simp add: accountInsert_def)
  note st = storePlaidAccounts_success [OF assms(2,3,4), of item db]
  have f: "fetchAndStoreAccounts e accountsGet tok db = storePlaidAccounts e accs item db"
    by (simp add: fetchAndStoreAccounts_def assms(1) st)
  have r: "fst (storePlaidAccounts e accs item db) = Inr ''Successfully stored accounts''"
    by (simp add: st)
  have i: "issued db (snd (storePlaidAccounts e accs item db)) =
         [UpsertAccounts (map (accountInsert uid item) accs)]"
    by (simp add: st issued_def)
  have l: "accounts (snd (storePlaidAccounts e accs item db)) k =
           (case find (\<lambda>a. a_account_id a = k) (rev accs) of
              Some a \<Rightarrow> Some (accountInsert uid item a)
            | None \<Rightarrow> accounts db k)" for k
    by (simp add: st accounts_lookup)
  have d: "\<forall>account \<in> set accs.
             accounts (snd (storePlaidAccounts e accs item db)) (a_account_id account) =
               Some (accountInsert uid item account)"
  proof
    fix account assume "account \<in> set accs"
    from find_rev_distinct [OF assms(4) this]
    show "accounts (snd (storePlaidAccounts e accs item db)) (a_account_id account) =
               Some (accountInsert uid item account)"
      unfolding l by simp
  qed
  have o: "\<forall>k. k \<notin> a_account_id ` set accs \<longrightarrow>
             accounts (snd (storePlaidAccounts e accs item db)) k = accounts db k"
  proof (intro allI impI)
    fix k assume "k \<notin> a_account_id ` set accs"
    then have "find (\<lambda>a. a_account_id a = k) (rev accs) = None"
      unfolding find_rev_None by blast
    then show "accounts (snd (storePlaidAccounts e accs item db)) k = accounts db k"
      unfolding l by simp
  qed
  have u: "items (snd (storePlaidAccounts e accs item db)) = items db"
    "transactions (snd (storePlaidAccounts e accs item db)) = transactions db"
    by (simp_all add: st)
  from r i d o u show ?thesis
    unfolding Let_def f row [symmetric] by (intro conjI refl)
qed

theorem fetchAndStoreAccounts_upserts_witness:
  "sampleAccountsGet ''tok'' =
     Inr ([sampleAccount ''a1'' ''Checking'', sampleAccount ''a2'' ''Savings''], sampleItem)
   \<and> userId sampleEnv = Some ''u1'' \<and> accountsError sampleEnv = None
   \<and> distinct (map a_account_id [sampleAccount ''a1'' ''Checking'', sampleAccount ''a2'' ''Savings''])
   \<and> fst (fetchAndStoreAccounts sampleEnv sampleAccountsGet ''tok'' sampleStore) =
       Inr ''Successfully stored accounts''
   \<and> accounts (snd (fetchAndStoreAccounts sampleEnv sampleAccountsGet ''tok'' sampleStore)) ''a2'' =
       Some \<lparr> ar_user_id = ''u1'', ar_item_id = ''item1'', ar_account_id = ''a2'',
              ar_available_balance = Some 100, ar_current_balance = Some 110,
              ar_currency = Some ''USD'', ar_name = ''Savings'', ar_official_name = None,
              ar_type = ''depository'', ar_subtype = Some ''checking'',
              ar_institution_id = Some ''ins_1'', ar_institution_name = ''Unknown Institution'' \<rparr>"
proof -
  have g: "sampleAccountsGet ''tok'' =
     Inr ([sampleAccount ''a1'' ''Checking'', sampleAccount ''a2'' ''Savings''], sampleItem)"
    by (simp add: sampleAccountsGet_def)
  have u: "userId sampleEnv = Some ''u1''" and a: "accountsError sampleEnv = None"
    by (simp_all add: sampleEnv_def)
  have dist: "distinct (map a_account_id [sampleAccount ''a1'' ''Checking'', sampleAccount ''a2'' ''Savings''])"
    by (simp add: sampleAccount_def)
  note up = fetchAndStoreAccounts_upserts [where accountsGet = sampleAccountsGet
      and tok = "''tok''" and db = sampleStore, OF g u a dist, unfolded Let_def]
  have res: "fst (fetchAndStoreAccounts sampleEnv sampleAccountsGet ''tok'' sampleStore) =
       Inr ''Successfully stored accounts''"
    by (rule up [THEN conjunct2, THEN conjunct1])
  have row: "accounts (snd (fetchAndStoreAccounts sampleEnv sampleAccountsGet ''tok'' sampleStore)) ''a2'' =
       Some \<lparr> ar_user_id = ''u1'', ar_item_id = ''item1'', ar_account_id = ''a2'',
              ar_available_balance = Some 100, ar_current_balance = Some 110,
              ar_currency = Some ''USD'', ar_name = ''Savings'', ar_official_name = None,
              ar_type = ''depository'', ar_subtype = Some ''checking'',
              ar_institution_id = Some ''ins_1'', ar_institution_name = ''Unknown Institution'' \<rparr>"
    using up [THEN conjunct2, THEN conjunct2, THEN conjunct2, THEN conjunct1, THEN bspec,
        of "sampleAccount ''a2'' ''Savings''"]
    by (simp add: sampleAccount_def sampleItem_def)
  from g u a dist res row show ?thesis by (intro conjI)
qed

end
